theory Spec2Isabelle
  imports Main "HOL-Library.AList" "HOL-Library.Sublist"
begin

section \<open>The service registry of shared/serviceRegistry.js\<close>

text \<open>
  The class \<^verbatim>\<open>ServiceRegistry\<close> keeps two JavaScript \<^verbatim>\<open>Map\<close>s, \<^verbatim>\<open>services\<close> and
  \<^verbatim>\<open>circuitBreakers\<close>, both keyed by the service name, and writes the values of the first
  one to a JSON file. Every method is embedded as a function from the registry before the
  call to the result and the registry after it. The wall clock (\<^verbatim>\<open>Date.now()\<close>, in
  milliseconds) and the outcome of the file write are inputs of the functions that read them.
\<close>

subsection \<open>Data\<close>

text \<open>
  The metadata object given at registration. Only \<^verbatim>\<open>tags\<close> is read by the registry; a
  key that is absent from the object is \<open>None\<close>.
\<close>

record service_metadata =
  version :: "string option"
  tags :: "string list option"
  endpoints :: "string list option"

text \<open>
  The object built by \<^verbatim>\<open>registerService\<close>. \<^verbatim>\<open>status\<close> is the string the source stores
  (\<^verbatim>\<open>'healthy'\<close> or \<^verbatim>\<open>'unhealthy'\<close>). The two timestamps hold the instant (in milliseconds)
  whose ISO-8601 text the source stores. \<^verbatim>\<open>lastError\<close> exists only after a failed probe.
\<close>

record service =
  name :: string
  url :: string
  metadata :: service_metadata
  status :: string
  registeredAt :: int
  lastHealthCheck :: int
  failureCount :: int
  lastError :: "string option"

datatype breaker_state = Closed | Open | HalfOpen

record breaker =
  state :: breaker_state
  failures :: int
  threshold :: int
  timeout :: int
  lastFailure :: int

text \<open>
  A JavaScript \<^verbatim>\<open>Map\<close> iterates in insertion order and \<^verbatim>\<open>getServiceWithLoadBalancing\<close>
  indexes into that order, so \<^verbatim>\<open>services\<close> is an association list: \<^verbatim>\<open>set\<close> on a present key
  replaces the value in place and on a new key appends (\<^const>\<open>AList.update\<close>), \<^verbatim>\<open>delete\<close>
  removes the pair (\<^const>\<open>AList.delete\<close>). The order of \<^verbatim>\<open>circuitBreakers\<close> is never
  observed, so it is a map. \<open>registryFile\<close> is the parsed content of the snapshot file,
  \<open>None\<close> when the file is missing or cannot be parsed.
\<close>

record registry =
  services :: "(string \<times> service) list"
  circuitBreakers :: "string \<rightharpoonup> breaker"
  registryFile :: "service list option"

text \<open>The only exception the class throws: \<^verbatim>\<open>Circuit breaker aberto para <name>\<close>.\<close>

datatype error = CircuitOpen string

text \<open>What \<^verbatim>\<open>axios.get\<close> did in a probe: answered with a status code, or threw.\<close>

datatype probe = Response int | Threw string

text \<open>A JavaScript value that may be \<^verbatim>\<open>null\<close> or \<^verbatim>\<open>undefined\<close> instead of an object.\<close>

datatype 'a js_value = Null | Undefined | Value 'a

subsection \<open>Operations\<close>

text \<open>The constructor: both maps empty; the file is whatever is on disk.\<close>

definition newRegistry :: "service list option \<Rightarrow> registry" where
  "newRegistry file = \<lparr>services = [], circuitBreakers = Map.empty, registryFile = file\<rparr>"

definition initCircuitBreaker :: "string \<Rightarrow> registry \<Rightarrow> registry" where
  "initCircuitBreaker serviceName r =
     r\<lparr>circuitBreakers := (circuitBreakers r)(serviceName \<mapsto>
        \<lparr>state = Closed, failures = 0, threshold = 3, timeout = 60000, lastFailure = 0\<rparr>)\<rparr>"

text \<open>
  \<^verbatim>\<open>saveRegistry\<close> writes the values of \<^verbatim>\<open>services\<close>; an error of the write is caught and
  logged, and the registry goes on (\<open>ok\<close> says whether the write succeeded).
\<close>

definition saveRegistry :: "bool \<Rightarrow> registry \<Rightarrow> registry" where
  "saveRegistry ok r = (if ok then r\<lparr>registryFile := Some (map snd (services r))\<rparr> else r)"

text \<open>
  \<^verbatim>\<open>initialize\<close> reads the file and, for each service in it, stores the service under its
  name and creates its breaker; a missing file leaves the registry as it is.
\<close>

definition loadService :: "service \<Rightarrow> registry \<Rightarrow> registry" where
  "loadService s r = initCircuitBreaker (name s) (r\<lparr>services := AList.update (name s) s (services r)\<rparr>)"

definition initialize :: "registry \<Rightarrow> registry" where
  "initialize r = (case registryFile r of None \<Rightarrow> r | Some svcs \<Rightarrow> fold loadService svcs r)"

text \<open>
  \<^verbatim>\<open>registerService\<close> reads the clock twice (\<open>now\<close> for \<^verbatim>\<open>registeredAt\<close>, \<open>now'\<close> for
  \<^verbatim>\<open>lastHealthCheck\<close>), stores the new object, creates the breaker and saves.
\<close>

definition registerService ::
  "string \<Rightarrow> string \<Rightarrow> service_metadata \<Rightarrow> int \<Rightarrow> int \<Rightarrow> bool \<Rightarrow> registry \<Rightarrow> service \<times> registry" where
  "registerService n u m now now' ok r =
     (let service = \<lparr>name = n, url = u, metadata = m, status = ''healthy'',
                      registeredAt = now, lastHealthCheck = now', failureCount = 0,
                      lastError = None\<rparr>
      in (service,
          saveRegistry ok (initCircuitBreaker n (r\<lparr>services := AList.update n service (services r)\<rparr>))))"

definition unregisterService :: "string \<Rightarrow> bool \<Rightarrow> registry \<Rightarrow> bool \<times> registry" where
  "unregisterService n ok r =
     (if map_of (services r) n \<noteq> None
      then (True, saveRegistry ok (r\<lparr>services := AList.delete n (services r),
                                       circuitBreakers := (circuitBreakers r)(n := None)\<rparr>))
      else (False, r))"

text \<open>
  \<^verbatim>\<open>getService\<close>: \<open>Inr None\<close> is the \<^verbatim>\<open>null\<close> returned for an unknown name, \<open>Inl\<close> the
  thrown error. The guard of the half-open transition is the source's
  \<^verbatim>\<open>Date.now() - breaker.lastFailure > breaker.timeout\<close>.
\<close>

definition getService :: "string \<Rightarrow> int \<Rightarrow> registry \<Rightarrow> (error + service option) \<times> registry" where
  "getService n now r =
     (case map_of (services r) n of
        None \<Rightarrow> (Inr None, r)
      | Some service \<Rightarrow>
          (case circuitBreakers r n of
             None \<Rightarrow> (Inr (Some service), r)
           | Some b \<Rightarrow>
               if state b = Open then
                 if now - lastFailure b > timeout b
                 then (Inr (Some service),
                       r\<lparr>circuitBreakers := (circuitBreakers r)(n \<mapsto> b\<lparr>state := HalfOpen\<rparr>)\<rparr>)
                 else (Inl (CircuitOpen n), r)
               else (Inr (Some service), r)))"

definition getAllServices :: "registry \<Rightarrow> service list" where
  "getAllServices r = map snd (services r)"

definition getHealthyServices :: "registry \<Rightarrow> service list" where
  "getHealthyServices r = filter (\<lambda>service. status service = ''healthy'') (map snd (services r))"

definition recordSuccess :: "string \<Rightarrow> registry \<Rightarrow> registry" where
  "recordSuccess serviceName r =
     (case circuitBreakers r serviceName of
        None \<Rightarrow> r
      | Some b \<Rightarrow>
          (let b1 = b\<lparr>failures := 0\<rparr>;
               b2 = (if state b1 = HalfOpen then b1\<lparr>state := Closed\<rparr> else b1)
           in r\<lparr>circuitBreakers := (circuitBreakers r)(serviceName \<mapsto> b2)\<rparr>))"

definition recordFailure :: "string \<Rightarrow> int \<Rightarrow> registry \<Rightarrow> registry" where
  "recordFailure serviceName now r =
     (case circuitBreakers r serviceName of
        None \<Rightarrow> r
      | Some b \<Rightarrow>
          (let b1 = b\<lparr>failures := failures b + 1, lastFailure := now\<rparr>;
               b2 = (if failures b1 \<ge> threshold b1 then b1\<lparr>state := Open\<rparr> else b1)
           in r\<lparr>circuitBreakers := (circuitBreakers r)(serviceName \<mapsto> b2)\<rparr>))"

text \<open>
  \<^verbatim>\<open>performHealthCheck\<close> is called by the timer with the objects of the table itself, so
  its writes to \<^verbatim>\<open>service\<close> are writes to the entry stored under that name. A response
  whose status is not 200 changes nothing and returns \<^verbatim>\<open>undefined\<close> (\<open>None\<close>).
\<close>

definition performHealthCheck :: "string \<Rightarrow> probe \<Rightarrow> int \<Rightarrow> registry \<Rightarrow> bool option \<times> registry" where
  "performHealthCheck n p now r =
     (case p of
        Response code \<Rightarrow>
          if code = 200
          then (Some True,
                recordSuccess n (r\<lparr>services := AList.map_entry n
                   (\<lambda>s. s\<lparr>status := ''healthy'', lastHealthCheck := now, failureCount := 0\<rparr>)
                   (services r)\<rparr>))
          else (None, r)
      | Threw msg \<Rightarrow>
          (Some False,
           recordFailure n now (r\<lparr>services := AList.map_entry n
              (\<lambda>s. s\<lparr>status := ''unhealthy'', failureCount := failureCount s + 1,
                      lastError := Some msg\<rparr>)
              (services r)\<rparr>)))"

text \<open>\<^verbatim>\<open>tags && tags.includes(tag)\<close>: a missing \<^verbatim>\<open>tags\<close> key is falsy.\<close>

definition hasTag :: "string \<Rightarrow> service \<Rightarrow> bool" where
  "hasTag tag service = (case tags (metadata service) of None \<Rightarrow> False | Some ts \<Rightarrow> tag \<in> set ts)"

definition findServicesByTag :: "string \<Rightarrow> registry \<Rightarrow> service list" where
  "findServicesByTag tag r =
     filter (\<lambda>service. status service = ''healthy'')
       (filter (hasTag tag) (map snd (services r)))"

text \<open>
  The remainder operator \<^verbatim>\<open>%\<close> of JavaScript takes the sign of the dividend, and an array
  read at an index that is not in range gives \<^verbatim>\<open>undefined\<close>.
\<close>

definition js_rem :: "int \<Rightarrow> int \<Rightarrow> int" where
  "js_rem a b = (if a < 0 then - ((- a) mod \<bar>b\<bar>) else a mod \<bar>b\<bar>)"

definition js_index :: "'a list \<Rightarrow> int \<Rightarrow> 'a js_value" where
  "js_index xs i = (if 0 \<le> i \<and> i < int (length xs) then Value (xs ! nat i) else Undefined)"

text \<open>
  The array that \<^verbatim>\<open>getServiceWithLoadBalancing\<close> builds first
  (\<^verbatim>\<open>name.startsWith(serviceName) && status === 'healthy'\<close>), then the pick at
  \<^verbatim>\<open>Math.floor(Date.now() / 1000) % services.length\<close>.
\<close>

definition matchingServices :: "string \<Rightarrow> registry \<Rightarrow> service list" where
  "matchingServices serviceName r =
     filter (\<lambda>service. prefix serviceName (name service) \<and> status service = ''healthy'')
       (map snd (services r))"

definition getServiceWithLoadBalancing :: "string \<Rightarrow> int \<Rightarrow> registry \<Rightarrow> service js_value" where
  "getServiceWithLoadBalancing serviceName now r =
     (let svcs = matchingServices serviceName r
      in if length svcs = 0 then Null
         else js_index svcs (js_rem (now div 1000) (int (length svcs))))"

subsection \<open>Well-formed registries\<close>

text \<open>
  A \<^verbatim>\<open>Map\<close> holds each key once, and every method stores a service under its own
  \<^verbatim>\<open>name\<close>.
\<close>

definition wf_services :: "registry \<Rightarrow> bool" where
  "wf_services r \<longleftrightarrow>
     distinct (map fst (services r)) \<and> list_all (\<lambda>(k, s). name s = k) (services r)"

text \<open>The two maps have the same keys.\<close>

definition paired :: "registry \<Rightarrow> bool" where
  "paired r \<longleftrightarrow> fst ` set (services r) = dom (circuitBreakers r)"

subsection \<open>A scenario\<close>

text \<open>
  The item service registers itself, fails three times, is reported healthy once while its
  breaker is open, and is looked up after the breaker's timeout.
\<close>

definition itemMeta :: service_metadata where
  "itemMeta = \<lparr>version = Some ''1.0.0'', tags = Some [''items''], endpoints = None\<rparr>"

definition itemEntry :: service where
  "itemEntry = \<lparr>name = ''item-service'', url = ''http://host:3002'', metadata = itemMeta,
                 status = ''healthy'', registeredAt = 1000, lastHealthCheck = 1000,
                 failureCount = 0, lastError = None\<rparr>"

definition itemRegistered :: registry where
  "itemRegistered =
     snd (registerService ''item-service'' ''http://host:3002'' itemMeta 1000 1000 True
            (newRegistry None))"

definition itemOpen :: registry where
  "itemOpen = fold (recordFailure ''item-service'') [2000, 3000, 4000] itemRegistered"

definition itemHalfOpen :: registry where
  "itemHalfOpen =
     snd (getService ''item-service'' 70000 (recordSuccess ''item-service'' itemOpen))"

text \<open>
  Three instances register under names that start with \<^verbatim>\<open>svc\<close>; the probe of the second one
  then fails.
\<close>

definition svcMeta :: service_metadata where
  "svcMeta = \<lparr>version = None, tags = Some [''svc''], endpoints = None\<rparr>"

definition svcEntry :: "string \<Rightarrow> string \<Rightarrow> int \<Rightarrow> service" where
  "svcEntry n u t = \<lparr>name = n, url = u, metadata = svcMeta, status = ''healthy'',
                      registeredAt = t, lastHealthCheck = t, failureCount = 0,
                      lastError = None\<rparr>"

definition svcThree :: registry where
  "svcThree =
     snd (registerService ''svc-c'' ''http://host:4003'' svcMeta 3000 3000 True
       (snd (registerService ''svc-b'' ''http://host:4002'' svcMeta 2000 2000 True
         (snd (registerService ''svc-a'' ''http://host:4001'' svcMeta 1000 1000 True
            (newRegistry None))))))"

definition svcProbed :: registry where
  "svcProbed = snd (performHealthCheck ''svc-b'' (Threw ''ECONNREFUSED'') 5000 svcThree)"

text \<open>
  A table with four entries: two tagged \<^verbatim>\<open>items\<close>, of which the replica has failed its
  probe, one tagged \<^verbatim>\<open>users\<close> and \<^verbatim>\<open>auth\<close>, and the gateway, registered with the default
  metadata \<^verbatim>\<open>{}\<close>, which has no \<^verbatim>\<open>tags\<close> key.
\<close>

definition userMeta :: service_metadata where
  "userMeta = \<lparr>version = Some ''1.0.0'', tags = Some [''users'', ''auth''], endpoints = None\<rparr>"

definition noMeta :: service_metadata where
  "noMeta = \<lparr>version = None, tags = None, endpoints = None\<rparr>"

definition userEntry :: service where
  "userEntry = \<lparr>name = ''user-service'', url = ''http://host:3001'', metadata = userMeta,
                 status = ''healthy'', registeredAt = 2000, lastHealthCheck = 2000,
                 failureCount = 0, lastError = None\<rparr>"

definition replicaEntry :: service where
  "replicaEntry = \<lparr>name = ''item-replica'', url = ''http://host:3012'', metadata = itemMeta,
                    status = ''unhealthy'', registeredAt = 3000, lastHealthCheck = 3000,
                    failureCount = 1, lastError = Some ''ECONNREFUSED''\<rparr>"

definition gatewayEntry :: service where
  "gatewayEntry = \<lparr>name = ''api-gateway'', url = ''http://host:3000'', metadata = noMeta,
                    status = ''healthy'', registeredAt = 4000, lastHealthCheck = 4000,
                    failureCount = 0, lastError = None\<rparr>"

definition tagTable :: registry where
  "tagTable =
     snd (performHealthCheck ''item-replica'' (Threw ''ECONNREFUSED'') 5000
       (snd (registerService ''api-gateway'' ''http://host:3000'' noMeta 4000 4000 True
         (snd (registerService ''item-replica'' ''http://host:3012'' itemMeta 3000 3000 True
           (snd (registerService ''user-service'' ''http://host:3001'' userMeta 2000 2000 True
              itemRegistered)))))))"

section \<open>Properties\<close>

subsection \<open>The scenario, evaluated\<close>

lemma itemRegistered_services: "services itemRegistered = [(''item-service'', itemEntry)]"
  by (simp add: itemRegistered_def itemEntry_def registerService_def newRegistry_def
      saveRegistry_def initCircuitBreaker_def Let_def)

lemma itemRegistered_breakers:
  "circuitBreakers itemRegistered =
     [''item-service'' \<mapsto>
        \<lparr>state = Closed, failures = 0, threshold = 3, timeout = 60000, lastFailure = 0\<rparr>]"
  by (simp add: itemRegistered_def registerService_def newRegistry_def saveRegistry_def
      initCircuitBreaker_def Let_def)

lemma itemOpen_services: "services itemOpen = [(''item-service'', itemEntry)]"
  by (simp add: itemOpen_def recordFailure_def itemRegistered_breakers itemRegistered_services
      Let_def)

lemma itemOpen_breakers:
  "circuitBreakers itemOpen =
     [''item-service'' \<mapsto>
        \<lparr>state = Open, failures = 3, threshold = 3, timeout = 60000, lastFailure = 4000\<rparr>]"
  by (simp add: itemOpen_def recordFailure_def itemRegistered_breakers Let_def)

lemma itemHalfOpen_services: "services itemHalfOpen = [(''item-service'', itemEntry)]"
  by (simp add: itemHalfOpen_def getService_def recordSuccess_def itemOpen_breakers
      itemOpen_services Let_def)

lemma itemHalfOpen_breakers:
  "circuitBreakers itemHalfOpen =
     [''item-service'' \<mapsto>
        \<lparr>state = HalfOpen, failures = 0, threshold = 3, timeout = 60000, lastFailure = 4000\<rparr>]"
  by (simp add: itemHalfOpen_def getService_def recordSuccess_def itemOpen_breakers
      itemOpen_services Let_def)

subsection \<open>Lookup through the breaker\<close>

text \<open>
  C1, as the code has it. \<^verbatim>\<open>getService\<close> returns \<^verbatim>\<open>null\<close> for a name with no entry, which is
  not the thrown error. For a registered name it returns the entry and changes nothing when
  the breaker is closed or half-open; when the breaker is open it throws as long as
  \<open>now - lastFailure \<le> timeout\<close> (equality included), and only when
  \<open>now - lastFailure > timeout\<close> does it set the breaker to half-open and return the entry.
\<close>

theorem getService_breaker_gate:
  "(map_of (services r) n = None \<longrightarrow> getService n now r = (Inr None, r))
   \<and> (map_of (services r) n = Some e \<and> circuitBreakers r n = Some b \<longrightarrow>
        getService n now r =
          (if state b \<noteq> Open then (Inr (Some e), r)
           else if now - lastFailure b \<le> timeout b then (Inl (CircuitOpen n), r)
           else (Inr (Some e),
                 r\<lparr>circuitBreakers := (circuitBreakers r)(n \<mapsto> b\<lparr>state := HalfOpen\<rparr>)\<rparr>)))
   \<and> (Inr None :: error + service option) \<noteq> Inl (CircuitOpen n)"
  by (simp add: getService_def)

theorem getService_breaker_gate_witness:
  "getService ''user-service'' 5000 itemOpen = (Inr None, itemOpen)
   \<and> getService ''item-service'' 5000 itemRegistered = (Inr (Some itemEntry), itemRegistered)
   \<and> getService ''item-service'' 5000 itemHalfOpen = (Inr (Some itemEntry), itemHalfOpen)
   \<and> getService ''item-service'' 5000 itemOpen = (Inl (CircuitOpen ''item-service''), itemOpen)
   \<and> getService ''item-service'' 64001 itemOpen =
       (Inr (Some itemEntry),
        itemOpen\<lparr>circuitBreakers := [''item-service'' \<mapsto>
           \<lparr>state = HalfOpen, failures = 3, threshold = 3, timeout = 60000,
              lastFailure = 4000\<rparr>]\<rparr>)"
  using getService_breaker_gate [of itemOpen "''user-service''" 5000]
    getService_breaker_gate [of itemRegistered "''item-service''" 5000 itemEntry
      "\<lparr>state = Closed, failures = 0, threshold = 3, timeout = 60000, lastFailure = 0\<rparr>"]
    getService_breaker_gate [of itemHalfOpen "''item-service''" 5000 itemEntry
      "\<lparr>state = HalfOpen, failures = 0, threshold = 3, timeout = 60000, lastFailure = 4000\<rparr>"]
    getService_breaker_gate [of itemOpen "''item-service''" 5000 itemEntry
      "\<lparr>state = Open, failures = 3, threshold = 3, timeout = 60000, lastFailure = 4000\<rparr>"]
    getService_breaker_gate [of itemOpen "''item-service''" 64001 itemEntry
      "\<lparr>state = Open, failures = 3, threshold = 3, timeout = 60000, lastFailure = 4000\<rparr>"]
  by (simp add: itemRegistered_services itemRegistered_breakers itemOpen_services
      itemOpen_breakers itemHalfOpen_services itemHalfOpen_breakers)

text \<open>
  At \<open>now - lastFailure = timeout\<close> exactly (64000 - 4000 = 60000) the breaker is still
  open and the lookup throws.
\<close>

theorem getService_at_timeout_counterexample:
  "circuitBreakers itemOpen ''item-service'' =
     Some \<lparr>state = Open, failures = 3, threshold = 3, timeout = 60000, lastFailure = 4000\<rparr>
   \<and> (64000::int) - 4000 \<ge> 60000
   \<and> getService ''item-service'' 64000 itemOpen = (Inl (CircuitOpen ''item-service''), itemOpen)"
  by (simp add: getService_def itemOpen_services itemOpen_breakers)

subsection \<open>Reports to the breaker\<close>

text \<open>
  C10: for a name that has a breaker, \<^verbatim>\<open>recordSuccess\<close> sets the failure count to 0 in
  every state and changes the state only from half-open, to closed; an open breaker stays
  open with its count at 0. Nothing else in the registry changes.
\<close>

theorem recordSuccess_resets_count:
  assumes "circuitBreakers r n = Some b"
  shows "recordSuccess n r =
           r\<lparr>circuitBreakers := (circuitBreakers r)(n \<mapsto>
              b\<lparr>failures := 0, state := (if state b = HalfOpen then Closed else state b)\<rparr>)\<rparr>"
  using assms by (simp add: recordSuccess_def Let_def)

theorem recordSuccess_resets_count_witness:
  "circuitBreakers (recordSuccess ''item-service'' itemOpen) ''item-service'' =
     Some \<lparr>state = Open, failures = 0, threshold = 3, timeout = 60000, lastFailure = 4000\<rparr>
   \<and> circuitBreakers (recordSuccess ''item-service'' itemHalfOpen) ''item-service'' =
     Some \<lparr>state = Closed, failures = 0, threshold = 3, timeout = 60000, lastFailure = 4000\<rparr>"
  using recordSuccess_resets_count [of itemOpen "''item-service''"
          "\<lparr>state = Open, failures = 3, threshold = 3, timeout = 60000, lastFailure = 4000\<rparr>"]
        recordSuccess_resets_count [of itemHalfOpen "''item-service''"
          "\<lparr>state = HalfOpen, failures = 0, threshold = 3, timeout = 60000, lastFailure = 4000\<rparr>"]
  by (simp add: itemOpen_breakers itemHalfOpen_breakers)

text \<open>
  C8, as the code has it: a failure recorded on a closed breaker whose count stays below the
  threshold leaves the breaker closed, adds one to the count and sets \<^verbatim>\<open>lastFailure\<close> to the
  current time; the threshold, the timeout, the other breakers, the services and the file
  are unchanged.
\<close>

theorem recordFailure_below_threshold:
  assumes "circuitBreakers r n = Some b" and "state b = Closed"
    and "failures b + 1 < threshold b"
  shows "recordFailure n now r =
           r\<lparr>circuitBreakers := (circuitBreakers r)(n \<mapsto>
              b\<lparr>failures := failures b + 1, lastFailure := now\<rparr>)\<rparr>
         \<and> state (b\<lparr>failures := failures b + 1, lastFailure := now\<rparr>) = Closed"
  using assms by (simp add: recordFailure_def Let_def)

theorem recordFailure_below_threshold_witness:
  "recordFailure ''item-service'' 5000 itemRegistered =
     itemRegistered\<lparr>circuitBreakers := [''item-service'' \<mapsto>
        \<lparr>state = Closed, failures = 1, threshold = 3, timeout = 60000, lastFailure = 5000\<rparr>]\<rparr>"
  using recordFailure_below_threshold [of itemRegistered "''item-service''"
          "\<lparr>state = Closed, failures = 0, threshold = 3, timeout = 60000, lastFailure = 0\<rparr>" 5000]
  by (simp add: itemRegistered_breakers)

text \<open>The first failure of a fresh breaker moves \<^verbatim>\<open>lastFailure\<close> from 0 to the current time.\<close>

theorem recordFailure_lastFailure_counterexample:
  "circuitBreakers itemRegistered ''item-service'' =
     Some \<lparr>state = Closed, failures = 0, threshold = 3, timeout = 60000, lastFailure = 0\<rparr>
   \<and> circuitBreakers (recordFailure ''item-service'' 5000 itemRegistered) ''item-service'' =
     Some \<lparr>state = Closed, failures = 1, threshold = 3, timeout = 60000, lastFailure = 5000\<rparr>"
  by (simp add: itemRegistered_breakers recordFailure_def Let_def)

text \<open>
  \<^verbatim>\<open>recordFailure\<close> opens a breaker by its count alone, whatever its state: a half-open
  breaker whose count is still at the threshold is opened again by the next failure.
\<close>

lemma recordFailure_reaches_threshold:
  assumes "circuitBreakers r n = Some b" and "threshold b \<le> failures b + 1"
  shows "circuitBreakers (recordFailure n now r) n =
           Some (b\<lparr>failures := failures b + 1, lastFailure := now, state := Open\<rparr>)"
  using assms by (simp add: recordFailure_def Let_def)

text \<open>
  C3 at the half-open breaker of the scenario, whose count a success reported while it was
  open has set to 0: the failure of the trial gives count 1, below the threshold, and the
  breaker stays half-open.
\<close>

theorem recordFailure_half_open_stays:
  "circuitBreakers itemHalfOpen ''item-service'' =
     Some \<lparr>state = HalfOpen, failures = 0, threshold = 3, timeout = 60000, lastFailure = 4000\<rparr>
   \<and> circuitBreakers (recordFailure ''item-service'' 70001 itemHalfOpen) ''item-service'' =
     Some \<lparr>state = HalfOpen, failures = 1, threshold = 3, timeout = 60000,
            lastFailure = 70001\<rparr>"
  by (simp add: itemHalfOpen_breakers recordFailure_def Let_def)

subsection \<open>Consecutive failures\<close>

lemma recordFailure_services: "services (recordFailure n t r) = services r"
  by (simp add: recordFailure_def Let_def split: option.splits)

lemma fold_recordFailure_services: "services (fold (recordFailure n) ts r) = services r"
  by (induction ts arbitrary: r) (simp_all add: recordFailure_services)

lemma fold_recordFailure_below:
  assumes "circuitBreakers r n = Some b"
    and "failures b + int (length ts) < threshold b"
  shows "circuitBreakers (fold (recordFailure n) ts r) n =
           Some (b\<lparr>failures := failures b + int (length ts),
                   lastFailure := last (lastFailure b # ts)\<rparr>)"
  using assms
proof (induction ts arbitrary: r b)
  case Nil
  then show ?case by simp
next
  case (Cons t ts)
  let ?b1 = "b\<lparr>failures := failures b + 1, lastFailure := t\<rparr>"
  have step: "circuitBreakers (recordFailure n t r) n = Some ?b1"
    using Cons.prems by (simp add: recordFailure_def Let_def)
  have "failures ?b1 + int (length ts) < threshold ?b1"
    using Cons.prems by simp
  from Cons.IH [OF step this] show ?case
    by (simp add: add.assoc add.commute)
qed

text \<open>
  C2: from a closed breaker with count 0 (as \<^verbatim>\<open>initCircuitBreaker\<close> creates it) of a
  registered name, after fewer failures than the threshold (recorded at the times \<open>ts\<close>)
  the breaker is still closed and \<^verbatim>\<open>getService\<close> returns the entry; after exactly as many
  failures as the threshold the breaker is open, and \<^verbatim>\<open>getService\<close> throws at every time
  \<open>now\<close> with \<open>now - last ts < timeout\<close>.
\<close>

theorem consecutive_failures_trip:
  assumes "map_of (services r) n = Some e" and "circuitBreakers r n = Some b"
    and "state b = Closed" and "failures b = 0" and "0 < threshold b"
  shows "(int (length ts) < threshold b \<longrightarrow>
            circuitBreakers (fold (recordFailure n) ts r) n =
              Some (b\<lparr>failures := int (length ts), lastFailure := last (lastFailure b # ts)\<rparr>)
            \<and> state (b\<lparr>failures := int (length ts), lastFailure := last (lastFailure b # ts)\<rparr>) = Closed
            \<and> getService n now (fold (recordFailure n) ts r) =
                (Inr (Some e), fold (recordFailure n) ts r))
       \<and> (int (length ts) = threshold b \<longrightarrow>
            circuitBreakers (fold (recordFailure n) ts r) n =
              Some (b\<lparr>failures := threshold b, lastFailure := last ts, state := Open\<rparr>)
            \<and> (now - last ts < timeout b \<longrightarrow>
                 getService n now (fold (recordFailure n) ts r) =
                   (Inl (CircuitOpen n), fold (recordFailure n) ts r)))"
proof (intro conjI impI)
  assume lt: "int (length ts) < threshold b"
  with assms show below: "circuitBreakers (fold (recordFailure n) ts r) n =
      Some (b\<lparr>failures := int (length ts), lastFailure := last (lastFailure b # ts)\<rparr>)"
    using fold_recordFailure_below [of r n b ts] by simp
  show "state (b\<lparr>failures := int (length ts), lastFailure := last (lastFailure b # ts)\<rparr>) = Closed"
    using assms by simp
  show "getService n now (fold (recordFailure n) ts r) =
      (Inr (Some e), fold (recordFailure n) ts r)"
    using assms below by (simp add: getService_def fold_recordFailure_services)
next
  assume eq: "int (length ts) = threshold b"
  with assms have "ts \<noteq> []" by auto
  then obtain ts' t where ts: "ts = ts' @ [t]"
    by (metis append_butlast_last_id)
  let ?r' = "fold (recordFailure n) ts' r"
  have "failures b + int (length ts') < threshold b"
    using eq assms ts by simp
  from fold_recordFailure_below [OF assms(2) this]
  have mid: "circuitBreakers ?r' n =
      Some (b\<lparr>failures := int (length ts'), lastFailure := last (lastFailure b # ts')\<rparr>)"
    using assms by simp
  show tripped: "circuitBreakers (fold (recordFailure n) ts r) n =
      Some (b\<lparr>failures := threshold b, lastFailure := last ts, state := Open\<rparr>)"
    using mid eq ts by (simp add: recordFailure_def Let_def)
  assume "now - last ts < timeout b"
  then show "getService n now (fold (recordFailure n) ts r) =
      (Inl (CircuitOpen n), fold (recordFailure n) ts r)"
    using assms(1) tripped by (simp add: getService_def fold_recordFailure_services)
qed

theorem consecutive_failures_trip_witness:
  "circuitBreakers (fold (recordFailure ''item-service'') [2000, 3000] itemRegistered) ''item-service'' =
     Some \<lparr>state = Closed, failures = 2, threshold = 3, timeout = 60000, lastFailure = 3000\<rparr>
   \<and> getService ''item-service'' 3500 (fold (recordFailure ''item-service'') [2000, 3000] itemRegistered) =
       (Inr (Some itemEntry), fold (recordFailure ''item-service'') [2000, 3000] itemRegistered)
   \<and> circuitBreakers (fold (recordFailure ''item-service'') [2000, 3000, 4000] itemRegistered) ''item-service'' =
     Some \<lparr>state = Open, failures = 3, threshold = 3, timeout = 60000, lastFailure = 4000\<rparr>
   \<and> getService ''item-service'' 63999 (fold (recordFailure ''item-service'') [2000, 3000, 4000] itemRegistered) =
       (Inl (CircuitOpen ''item-service''), fold (recordFailure ''item-service'') [2000, 3000, 4000] itemRegistered)"
  using consecutive_failures_trip [of itemRegistered "''item-service''" itemEntry
      "\<lparr>state = Closed, failures = 0, threshold = 3, timeout = 60000, lastFailure = 0\<rparr>"
      "[2000, 3000]" 3500]
    consecutive_failures_trip [of itemRegistered "''item-service''" itemEntry
      "\<lparr>state = Closed, failures = 0, threshold = 3, timeout = 60000, lastFailure = 0\<rparr>"
      "[2000, 3000, 4000]" 63999]
  by (simp add: itemRegistered_services itemRegistered_breakers)

subsection \<open>Registration\<close>

lemma saveRegistry_services [simp]: "services (saveRegistry ok r) = services r"
  by (simp add: saveRegistry_def)

lemma saveRegistry_circuitBreakers [simp]: "circuitBreakers (saveRegistry ok r) = circuitBreakers r"
  by (simp add: saveRegistry_def)








subsection \<open>Removal\<close>

lemma keys_delete: "fst ` set (AList.delete n al) = fst ` set al - {n}"
  by (induction al) auto

text \<open>
  C5: \<^verbatim>\<open>unregisterService\<close> returns true exactly when the name has an entry, and then the
  entry and the breaker of the name are gone; for a name without an entry it returns false
  and the registry (table, breakers and file) is the one before the call.
\<close>

theorem unregisterService_result:
  "fst (unregisterService n ok r) = (n \<in> fst ` set (services r))
   \<and> (n \<in> fst ` set (services r) \<longrightarrow>
        services (snd (unregisterService n ok r)) = AList.delete n (services r)
        \<and> n \<notin> fst ` set (services (snd (unregisterService n ok r)))
        \<and> circuitBreakers (snd (unregisterService n ok r)) = (circuitBreakers r)(n := None))
   \<and> (n \<notin> fst ` set (services r) \<longrightarrow> snd (unregisterService n ok r) = r)"
  by (simp add: unregisterService_def map_of_eq_None_iff keys_delete)

theorem unregisterService_result_witness:
  "unregisterService ''user-service'' True itemRegistered = (False, itemRegistered)
   \<and> fst (unregisterService ''item-service'' True itemRegistered) = True
   \<and> services (snd (unregisterService ''item-service'' True itemRegistered)) = []
   \<and> circuitBreakers (snd (unregisterService ''item-service'' True itemRegistered)) = Map.empty"
  using unregisterService_result [of "''user-service''" True itemRegistered]
    unregisterService_result [of "''item-service''" True itemRegistered]
  by (simp add: itemRegistered_services itemRegistered_breakers prod_eq_iff)

subsection \<open>The table and the breakers have the same names\<close>

lemma paired_saveRegistry [simp]: "paired (saveRegistry ok r) = paired r"
  by (simp add: paired_def)

lemma paired_loadService: "paired r \<Longrightarrow> paired (loadService s r)"
  by (simp add: paired_def loadService_def initCircuitBreaker_def dom_update)

lemma paired_fold_loadService: "paired r \<Longrightarrow> paired (fold loadService svcs r)"
  by (induction svcs arbitrary: r) (simp_all add: paired_loadService)

text \<open>
  C9: if the names with an entry are the names with a breaker, they still are after
  \<^verbatim>\<open>initialize\<close>, \<^verbatim>\<open>registerService\<close>, \<^verbatim>\<open>unregisterService\<close>, \<^verbatim>\<open>getService\<close>,
  \<^verbatim>\<open>recordSuccess\<close> and \<^verbatim>\<open>recordFailure\<close>.
\<close>

theorem paired_preserved:
  assumes "paired r"
  shows "paired (initialize r)
       \<and> paired (snd (registerService n u m now now' ok r))
       \<and> paired (snd (unregisterService n ok r))
       \<and> paired (snd (getService n now r))
       \<and> paired (recordSuccess n r)
       \<and> paired (recordFailure n now r)"
proof (intro conjI)
  show "paired (initialize r)"
    using assms by (simp add: initialize_def paired_fold_loadService split: option.splits)
  show "paired (snd (registerService n u m now now' ok r))"
    using assms by (simp add: registerService_def Let_def paired_def initCircuitBreaker_def dom_update)
  show "paired (snd (unregisterService n ok r))"
    using assms by (auto simp: unregisterService_def paired_def keys_delete)
  show "paired (snd (getService n now r))"
    using assms by (auto simp: getService_def paired_def split: option.splits)
  show "paired (recordSuccess n r)"
    using assms by (auto simp: recordSuccess_def Let_def paired_def split: option.splits)
  show "paired (recordFailure n now r)"
    using assms by (auto simp: recordFailure_def Let_def paired_def split: option.splits)
qed

theorem paired_preserved_witness:
  "paired itemRegistered
   \<and> registryFile itemRegistered = Some [itemEntry]
   \<and> paired (initialize itemRegistered)
   \<and> paired (snd (registerService ''user-service'' ''http://host:3001'' itemMeta 2000 2000 True
                    itemRegistered))
   \<and> paired (snd (unregisterService ''item-service'' True itemRegistered))
   \<and> paired (snd (getService ''item-service'' 2000 itemRegistered))
   \<and> paired (recordSuccess ''item-service'' itemRegistered)
   \<and> paired (recordFailure ''item-service'' 2000 itemRegistered)"
proof -
  have p: "paired itemRegistered"
    by (simp add: paired_def itemRegistered_services itemRegistered_breakers)
  have f: "registryFile itemRegistered = Some [itemEntry]"
    by (simp add: itemRegistered_def itemEntry_def registerService_def newRegistry_def
        saveRegistry_def initCircuitBreaker_def Let_def)
  show ?thesis
    using p f
      paired_preserved [of itemRegistered "''item-service''" "''http://host:3001''" itemMeta
        2000 2000 True]
      paired_preserved [of itemRegistered "''user-service''" "''http://host:3001''" itemMeta
        2000 2000 True]
    by simp
qed

subsection \<open>Selection by prefix\<close>

lemma svcThree_services:
  "services svcThree =
     [(''svc-a'', svcEntry ''svc-a'' ''http://host:4001'' 1000),
      (''svc-b'', svcEntry ''svc-b'' ''http://host:4002'' 2000),
      (''svc-c'', svcEntry ''svc-c'' ''http://host:4003'' 3000)]"
  by (simp add: svcThree_def svcEntry_def registerService_def newRegistry_def saveRegistry_def
      initCircuitBreaker_def Let_def)

lemma svcProbed_services:
  "services svcProbed =
     [(''svc-a'', svcEntry ''svc-a'' ''http://host:4001'' 1000),
      (''svc-b'', (svcEntry ''svc-b'' ''http://host:4002'' 2000)
                    \<lparr>status := ''unhealthy'', failureCount := 1,
                      lastError := Some ''ECONNREFUSED''\<rparr>),
      (''svc-c'', svcEntry ''svc-c'' ''http://host:4003'' 3000)]"
  by (simp add: svcProbed_def performHealthCheck_def recordFailure_services svcThree_services
      svcEntry_def)

lemma js_rem_nonneg: "0 \<le> a \<Longrightarrow> 0 < b \<Longrightarrow> js_rem a b = a mod b"
  by (simp add: js_rem_def)

lemma js_index_in_range: "i < length xs \<Longrightarrow> js_index xs (int i) = Value (xs ! i)"
  by (simp add: js_index_def)

lemma js_index_Value: "js_index xs i = Value x \<Longrightarrow> x \<in> set xs"
  by (auto simp: js_index_def split: if_splits)

text \<open>
  C6: \<^verbatim>\<open>getServiceWithLoadBalancing\<close> considers exactly the entries whose name starts with
  the prefix and whose status is healthy, in the order of the table. With none it returns
  \<^verbatim>\<open>null\<close>; otherwise, for a clock at or after the epoch, it returns the one at index
  \<open>\<lfloor>now / 1000\<rfloor> mod count\<close>. Two calls within the same second return the same pick, and
  every entry returned is in the table, matches the prefix and is healthy.
\<close>

theorem getServiceWithLoadBalancing_pick:
  "matchingServices p r =
     filter (\<lambda>s. prefix p (name s) \<and> status s = ''healthy'') (getAllServices r)
   \<and> (matchingServices p r = [] \<longrightarrow> getServiceWithLoadBalancing p now r = Null)
   \<and> (matchingServices p r \<noteq> [] \<and> 0 \<le> now \<longrightarrow>
        getServiceWithLoadBalancing p now r =
          Value (matchingServices p r ! (nat (now div 1000) mod length (matchingServices p r))))
   \<and> (now div 1000 = now2 div 1000 \<longrightarrow>
        getServiceWithLoadBalancing p now r = getServiceWithLoadBalancing p now2 r)
   \<and> (getServiceWithLoadBalancing p now r = Value s \<longrightarrow>
        s \<in> set (getAllServices r) \<and> prefix p (name s) \<and> status s = ''healthy'')"
proof (intro conjI impI)
  show "matchingServices p r =
      filter (\<lambda>s. prefix p (name s) \<and> status s = ''healthy'') (getAllServices r)"
    by (simp add: matchingServices_def getAllServices_def)
  show "getServiceWithLoadBalancing p now r = Null" if "matchingServices p r = []"
    using that by (simp add: getServiceWithLoadBalancing_def Let_def)
  show "getServiceWithLoadBalancing p now r =
      Value (matchingServices p r ! (nat (now div 1000) mod length (matchingServices p r)))"
    if "matchingServices p r \<noteq> [] \<and> 0 \<le> now"
  proof -
    let ?xs = "matchingServices p r"
    from that have len: "0 < length ?xs" and sec: "0 \<le> now div 1000"
      by (simp_all add: pos_imp_zdiv_nonneg_iff)
    have "js_rem (now div 1000) (int (length ?xs)) = (now div 1000) mod int (length ?xs)"
      using len sec by (simp add: js_rem_nonneg)
    also have "\<dots> = int (nat (now div 1000) mod length ?xs)"
      using sec by (simp add: zmod_int)
    finally have "js_rem (now div 1000) (int (length ?xs)) = int (nat (now div 1000) mod length ?xs)" .
    moreover have "nat (now div 1000) mod length ?xs < length ?xs"
      using len by simp
    ultimately show ?thesis
      using len by (simp add: getServiceWithLoadBalancing_def Let_def js_index_in_range)
  qed
  show "getServiceWithLoadBalancing p now r = getServiceWithLoadBalancing p now2 r"
    if "now div 1000 = now2 div 1000"
    using that by (simp add: getServiceWithLoadBalancing_def Let_def)
  assume "getServiceWithLoadBalancing p now r = Value s"
  then have "s \<in> set (matchingServices p r)"
    by (auto simp: getServiceWithLoadBalancing_def Let_def dest: js_index_Value split: if_splits)
  then show "s \<in> set (getAllServices r)" and "prefix p (name s)" and "status s = ''healthy''"
    by (simp_all add: matchingServices_def getAllServices_def)
qed

theorem getServiceWithLoadBalancing_pick_witness:
  "matchingServices ''svc'' svcProbed =
     [svcEntry ''svc-a'' ''http://host:4001'' 1000, svcEntry ''svc-c'' ''http://host:4003'' 3000]
   \<and> getServiceWithLoadBalancing ''svc'' 7000 svcProbed =
       Value (svcEntry ''svc-c'' ''http://host:4003'' 3000)
   \<and> getServiceWithLoadBalancing ''svc'' 7999 svcProbed =
       getServiceWithLoadBalancing ''svc'' 7000 svcProbed
   \<and> getServiceWithLoadBalancing ''svc'' 8000 svcProbed =
       Value (svcEntry ''svc-a'' ''http://host:4001'' 1000)
   \<and> getServiceWithLoadBalancing ''item'' 8000 svcProbed = Null
   \<and> svcEntry ''svc-c'' ''http://host:4003'' 3000 \<in> set (getAllServices svcProbed)
   \<and> status (svcEntry ''svc-c'' ''http://host:4003'' 3000) = ''healthy''"
proof -
  have m: "matchingServices ''svc'' svcProbed =
     [svcEntry ''svc-a'' ''http://host:4001'' 1000, svcEntry ''svc-c'' ''http://host:4003'' 3000]"
    by (simp add: matchingServices_def svcProbed_services svcEntry_def)
  have e: "matchingServices ''item'' svcProbed = []"
    by (simp add: matchingServices_def svcProbed_services svcEntry_def)
  note at7 = getServiceWithLoadBalancing_pick [of "''svc''" svcProbed 7000 7999]
  note at8 = getServiceWithLoadBalancing_pick [of "''svc''" svcProbed 8000 8000]
  note none = getServiceWithLoadBalancing_pick [of "''item''" svcProbed 8000 8000]
  have p7: "getServiceWithLoadBalancing ''svc'' 7000 svcProbed =
      Value (svcEntry ''svc-c'' ''http://host:4003'' 3000)"
    using at7 [THEN conjunct2, THEN conjunct2, THEN conjunct1] by (simp add: m numeral_2_eq_2 [symmetric])
  have same: "getServiceWithLoadBalancing ''svc'' 7999 svcProbed =
      getServiceWithLoadBalancing ''svc'' 7000 svcProbed"
    using at7 [THEN conjunct2, THEN conjunct2, THEN conjunct2, THEN conjunct1] by simp
  have p8: "getServiceWithLoadBalancing ''svc'' 8000 svcProbed =
      Value (svcEntry ''svc-a'' ''http://host:4001'' 1000)"
    using at8 [THEN conjunct2, THEN conjunct2, THEN conjunct1] by (simp add: m numeral_2_eq_2 [symmetric])
  have p0: "getServiceWithLoadBalancing ''item'' 8000 svcProbed = Null"
    using none [THEN conjunct2, THEN conjunct1] by (simp add: e)
  have listed: "svcEntry ''svc-c'' ''http://host:4003'' 3000 \<in> set (getAllServices svcProbed)
      \<and> status (svcEntry ''svc-c'' ''http://host:4003'' 3000) = ''healthy''"
    using at7 [THEN conjunct2, THEN conjunct2, THEN conjunct2, THEN conjunct2,
        of "svcEntry ''svc-c'' ''http://host:4003'' 3000"] p7
    by simp
  show ?thesis
    using m p7 same p8 p0 listed by simp
qed

subsection \<open>Selection by tag\<close>

lemma name_filter_absent:
  "n \<notin> fst ` set al \<Longrightarrow> list_all (\<lambda>(k, s). name s = k) al \<Longrightarrow>
     filter (\<lambda>s. P s \<and> name s \<noteq> n) (map snd al) = filter P (map snd al)"
  by (induction al) force+

lemma filter_map_entry:
  assumes "distinct (map fst al)" and "list_all (\<lambda>(k, s). name s = k) al"
    and "\<And>s. \<not> P (f s)"
  shows "filter P (map snd (AList.map_entry n f al)) =
           filter (\<lambda>s. name s \<noteq> n) (filter P (map snd al))"
  using assms(1,2)
proof (induction al)
  case Nil
  then show ?case by simp
next
  case (Cons p al)
  obtain k s where p: "p = (k, s)" by (cases p)
  show ?case
  proof (cases "k = n")
    case True
    with Cons.prems p have "n \<notin> fst ` set al" and "list_all (\<lambda>(k, s). name s = k) al"
      and "name s = n"
      by auto
    with True p assms(3) show ?thesis
      by (simp add: name_filter_absent)
  next
    case False
    with Cons p show ?thesis by auto
  qed
qed

lemma map_name_map_entry:
  "(\<And>s. name (f s) = name s) \<Longrightarrow>
     map name (map snd (AList.map_entry n f al)) = map name (map snd al)"
  by (induction al) auto

lemma map_entry_member:
  "map_of al n = Some e \<Longrightarrow> f e \<in> snd ` set (AList.map_entry n f al)"
  by (induction al) (auto split: if_splits)

lemma name_is_key:
  assumes "distinct (map fst al)" and "list_all (\<lambda>(k, s). name s = k) al"
    and "map_of al n = Some e" and "s \<in> snd ` set al"
  shows "name s = n \<longleftrightarrow> s = e"
proof
  assume "name s = n"
  moreover from assms(4) obtain k where "(k, s) \<in> set al" by auto
  moreover from this assms(2) have "name s = k" by (auto simp: list_all_iff)
  ultimately have "map_of al n = Some s"
    using assms(1) by simp
  with assms(3) show "s = e" by simp
next
  assume "s = e"
  moreover from assms(3) have "(n, e) \<in> set al" by (rule map_of_SomeD)
  ultimately show "name s = n"
    using assms(2) by (auto simp: list_all_iff)
qed

lemma hasTag_iff: "hasTag tag s \<longleftrightarrow> (\<exists>ts. tags (metadata s) = Some ts \<and> tag \<in> set ts)"
  by (simp add: hasTag_def split: option.splits)

lemma tagTable_services:
  "services tagTable =
     [(''item-service'', itemEntry), (''user-service'', userEntry),
      (''item-replica'', replicaEntry), (''api-gateway'', gatewayEntry)]"
  by (simp add: tagTable_def performHealthCheck_def recordFailure_services registerService_def
      Let_def initCircuitBreaker_def itemRegistered_services userEntry_def replicaEntry_def
      gatewayEntry_def)

text \<open>
  C7: \<^verbatim>\<open>findServicesByTag\<close> returns exactly the entries of the table whose metadata has a
  \<^verbatim>\<open>tags\<close> list that contains the tag and whose status is healthy, in the order of the table.
  When the probe of such an entry fails, which sets its status to unhealthy, the result of
  \<^verbatim>\<open>findServicesByTag\<close> loses that entry and no other, while \<^verbatim>\<open>getAllServices\<close> still lists
  the entry, now unhealthy, under the same names as before.
\<close>

theorem findServicesByTag_healthy_only:
  "findServicesByTag tag r =
     filter (\<lambda>s. (\<exists>ts. tags (metadata s) = Some ts \<and> tag \<in> set ts) \<and> status s = ''healthy'')
       (getAllServices r)
   \<and> (wf_services r \<and> map_of (services r) n = Some e \<and> tags (metadata e) = Some ts
        \<and> tag \<in> set ts \<and> status e = ''healthy'' \<longrightarrow>
        e \<in> set (findServicesByTag tag r)
        \<and> findServicesByTag tag (snd (performHealthCheck n (Threw msg) now r)) =
            removeAll e (findServicesByTag tag r)
        \<and> e\<lparr>status := ''unhealthy'', failureCount := failureCount e + 1, lastError := Some msg\<rparr>
            \<in> set (getAllServices (snd (performHealthCheck n (Threw msg) now r)))
        \<and> map name (getAllServices (snd (performHealthCheck n (Threw msg) now r))) =
            map name (getAllServices r))"
proof (intro conjI impI)
  let ?P = "\<lambda>s. hasTag tag s \<and> status s = ''healthy''"
  let ?f = "\<lambda>s. s\<lparr>status := ''unhealthy'', failureCount := failureCount s + 1,
                     lastError := Some msg\<rparr>"
  let ?r' = "snd (performHealthCheck n (Threw msg) now r)"
  have single: "findServicesByTag tag r = filter ?P (getAllServices r)" for r
    by (simp add: findServicesByTag_def getAllServices_def conj_commute)
  then show "findServicesByTag tag r =
      filter (\<lambda>s. (\<exists>ts. tags (metadata s) = Some ts \<and> tag \<in> set ts) \<and> status s = ''healthy'')
        (getAllServices r)"
    by (simp add: hasTag_iff)
  have table: "services ?r' = AList.map_entry n ?f (services r)"
    by (simp add: performHealthCheck_def recordFailure_services)
  assume "wf_services r \<and> map_of (services r) n = Some e \<and> tags (metadata e) = Some ts
      \<and> tag \<in> set ts \<and> status e = ''healthy''"
  then have d: "distinct (map fst (services r))"
    and k: "list_all (\<lambda>(k, s). name s = k) (services r)"
    and e: "map_of (services r) n = Some e" and m: "?P e"
    by (simp_all add: wf_services_def hasTag_iff)
  from e have "e \<in> set (getAllServices r)"
    by (force simp: getAllServices_def dest: map_of_SomeD)
  with m show "e \<in> set (findServicesByTag tag r)"
    by (simp add: single)
  have "findServicesByTag tag ?r' = filter (\<lambda>s. name s \<noteq> n) (findServicesByTag tag r)"
    using filter_map_entry [OF d k, of ?P ?f n]
    by (simp add: single getAllServices_def table)
  also have "\<dots> = filter (\<lambda>s. e \<noteq> s) (findServicesByTag tag r)"
  proof (rule filter_cong [OF refl])
    fix s assume "s \<in> set (findServicesByTag tag r)"
    then have "s \<in> snd ` set (services r)"
      by (simp add: single getAllServices_def)
    from name_is_key [OF d k e this] show "(name s \<noteq> n) = (e \<noteq> s)" by auto
  qed
  finally show "findServicesByTag tag ?r' = removeAll e (findServicesByTag tag r)"
    by (simp add: removeAll_filter_not_eq)
  show "?f e \<in> set (getAllServices ?r')"
    using map_entry_member [OF e, of ?f] by (simp add: getAllServices_def table)
  show "map name (getAllServices ?r') = map name (getAllServices r)"
    using map_name_map_entry [of ?f n "services r"] by (simp add: getAllServices_def table)
qed

theorem findServicesByTag_healthy_only_witness:
  "getAllServices tagTable = [itemEntry, userEntry, replicaEntry, gatewayEntry]
   \<and> findServicesByTag ''items'' tagTable = [itemEntry]
   \<and> findServicesByTag ''auth'' tagTable = [userEntry]
   \<and> findServicesByTag ''gateway'' tagTable = []
   \<and> findServicesByTag ''items''
        (snd (performHealthCheck ''item-service'' (Threw ''ETIMEDOUT'') 6000 tagTable)) = []
   \<and> getAllServices (snd (performHealthCheck ''item-service'' (Threw ''ETIMEDOUT'') 6000 tagTable)) =
       [itemEntry\<lparr>status := ''unhealthy'', failureCount := 1, lastError := Some ''ETIMEDOUT''\<rparr>,
        userEntry, replicaEntry, gatewayEntry]"
proof -
  have all: "getAllServices tagTable = [itemEntry, userEntry, replicaEntry, gatewayEntry]"
    by (simp add: getAllServices_def tagTable_services)
  have fields:
    "tags (metadata itemEntry) = Some [''items'']" "status itemEntry = ''healthy''"
    "tags (metadata userEntry) = Some [''users'', ''auth'']" "status userEntry = ''healthy''"
    "tags (metadata replicaEntry) = Some [''items'']" "status replicaEntry = ''unhealthy''"
    "tags (metadata gatewayEntry) = None" "status gatewayEntry = ''healthy''"
    by (simp_all add: itemEntry_def userEntry_def replicaEntry_def gatewayEntry_def itemMeta_def
        userMeta_def noMeta_def)
  have w: "wf_services tagTable"
    by (simp add: wf_services_def tagTable_services itemEntry_def userEntry_def replicaEntry_def
        gatewayEntry_def)
  have items: "findServicesByTag ''items'' tagTable = [itemEntry]"
    using findServicesByTag_healthy_only [of "''items''" tagTable, THEN conjunct1]
    by (simp add: all fields)
  have auth: "findServicesByTag ''auth'' tagTable = [userEntry]"
    using findServicesByTag_healthy_only [of "''auth''" tagTable, THEN conjunct1]
    by (simp add: all fields)
  have gateway: "findServicesByTag ''gateway'' tagTable = []"
    using findServicesByTag_healthy_only [of "''gateway''" tagTable, THEN conjunct1]
    by (simp add: all fields)
  have after: "findServicesByTag ''items''
        (snd (performHealthCheck ''item-service'' (Threw ''ETIMEDOUT'') 6000 tagTable)) = []"
    using findServicesByTag_healthy_only [of "''items''" tagTable "''item-service''" itemEntry
        "[''items'']" "''ETIMEDOUT''" 6000, THEN conjunct2] w
    by (simp add: tagTable_services fields items)
  have listed: "getAllServices
        (snd (performHealthCheck ''item-service'' (Threw ''ETIMEDOUT'') 6000 tagTable)) =
       [itemEntry\<lparr>status := ''unhealthy'', failureCount := 1, lastError := Some ''ETIMEDOUT''\<rparr>,
        userEntry, replicaEntry, gatewayEntry]"
    by (simp add: getAllServices_def performHealthCheck_def recordFailure_services
        tagTable_services itemEntry_def)
  show ?thesis
    using all items auth gateway after listed by simp
qed

end
